theory Spec2Isabelle
  imports Complex_Main
begin

section \<open>The resize pipeline of re-position (src/observables/resize.ts)\<close>

text \<open>
  The TypeScript \<open>number\<close> is modelled as \<^typ>\<open>real\<close>: the arithmetic of the pipeline is
  read as exact arithmetic, so NaN, the infinities and the rounding of IEEE doubles are
  outside the model. Division by zero therefore differs from the program (HOL gives
  \<open>x / 0 = 0\<close>, the program an infinity or NaN); a theorem below whose conclusion rests
  on the value of a quotient states that the denominator is not zero.

  An optional boolean of the source (\<open>top?: boolean\<close>) is a \<^typ>\<open>bool\<close>: the code only
  tests it for truthiness, and \<open>undefined\<close> is falsy. An optional number (\<open>snap?: number\<close>)
  is a \<^typ>\<open>real option\<close>.
\<close>

subsection \<open>Data model (src/types)\<close>

text \<open>
  Modelled from the spec: the type declarations of src/types are missing. Section 3 gives
  ``\<open>Position\<close>: \<open>{ left, top, width, height }\<close>, numeric'', ``\<open>Dimensions\<close>: \<open>{ width,
  height }\<close>'' and ``\<open>AngleAndDistance\<close>: \<open>{ angle (degrees), distance }\<close>''; these are also
  the fields that resize.ts reads and writes. TypeScript types are structural, so a
  \<open>Position\<close> is a \<open>Dimensions\<close> with two more fields, which is what the record extension
  says.
\<close>

record Dimensions =
  width :: real
  height :: real

record Position = Dimensions +
  left :: real
  top :: real

record AngleAndDistance =
  angle :: real
  distance :: real

text \<open>
  Modelled from the spec: \<open>PositionStrings\<close> of src/types is missing: ``same shape, each
  field rendered as a string with unit suffix, either \<open>%\<close> or \<open>px\<close>''. In resize.ts a field
  is the template literal \<open>`${n}px`\<close> or \<open>`${n}%`\<close>. It is kept as the number with its unit;
  how JavaScript prints the number is not modelled. The fields are in the order of the
  object literals of \<open>convertDimensionsToPercent\<close>, with the suffix \<open>S\<close>.
\<close>

datatype CssLength = Px real | Percent real

record PositionStrings =
  leftS :: CssLength
  topS :: CssLength
  heightS :: CssLength
  widthS :: CssLength

text \<open>
  Modelled from the spec: the types \<open>Matrix\<close> and the result of \<open>corners\<close> are missing.
  ``\<open>TransformMatrix\<close>: the resolved 2-D affine transform (from CSS or equivalent)'', that
  is \<open>matrix(a, b, c, d, e, f)\<close>, which sends \<open>(x, y)\<close> to \<open>(a x + c y + e, b x + d y + f)\<close>;
  ``\<open>Corners\<close>: the four corner points (\<open>nw, ne, se, sw\<close>)''. A point \<open>{x, y}\<close> is a pair.
\<close>

type_synonym Point = "real \<times> real"

record Matrix =
  ma :: real
  mb :: real
  mc :: real
  md :: real
  me :: real
  mf :: real

record Corners =
  nw :: Point
  ne :: Point
  se :: Point
  sw :: Point

subsection \<open>Helpers of src/utils\<close>

text \<open>
  The file src/utils is not among the sources; the functions that resize.ts imports from
  it are modelled from their description in the spec (section 4.1).

  \<open>Math.round\<close> of JavaScript rounds to the nearest integer, a half upwards.
\<close>

definition Math_round :: "real \<Rightarrow> real" where
  "Math_round n = of_int \<lfloor>n + 1 / 2\<rfloor>"

text \<open>
  Modelled from the spec: \<open>round\<close> of src/utils is missing. ``\<open>round(n)\<close>: rounds to a
  fixed, small number of decimal places''. The number of places is not given, so it is
  the parameter \<open>places\<close>.
\<close>

definition round_dp :: "nat \<Rightarrow> real \<Rightarrow> real" where
  "round_dp places n = Math_round (n * 10 ^ places) / 10 ^ places"

text \<open>
  Modelled from the spec: the rounding of one value inside \<open>snapObjectValues\<close> of
  src/utils, which is missing: ``rounds [...] to the nearest multiple of \<open>step\<close>'', a
  half upwards as \<open>Math.round\<close> does.
\<close>

definition snapTo :: "real \<Rightarrow> real \<Rightarrow> real" where
  "snapTo step v = Math_round (v / step) * step"

text \<open>
  Modelled from the spec: \<open>snapObjectValues\<close> of src/utils is missing.
  ``\<open>snapObjectValues(step)(position)\<close>: if \<open>step\<close> is set, rounds each of \<open>left, top,
  width, height\<close> to the nearest multiple of \<open>step\<close>; otherwise identity.''
\<close>

definition snapObjectValues :: "real option \<Rightarrow> Position \<Rightarrow> Position" where
  "snapObjectValues snap position =
     (case snap of
        None \<Rightarrow> position
      | Some step \<Rightarrow>
          \<lparr>width = snapTo step (width position), height = snapTo step (height position),
           left = snapTo step (left position), top = snapTo step (top position)\<rparr>)"

text \<open>
  Modelled from the spec: the application of a \<open>TransformMatrix\<close> to a point, which
  \<open>corners\<close> of src/utils (missing) uses: ``the resolved 2-D affine transform''.
\<close>

definition applyToPoint :: "Matrix \<Rightarrow> Point \<Rightarrow> Point" where
  "applyToPoint m pt =
     (ma m * fst pt + mc m * snd pt + me m, mb m * fst pt + md m * snd pt + mf m)"

text \<open>
  Modelled from the spec: \<open>corners\<close> of src/utils is missing. ``\<open>corners(position,
  matrix)\<close>: applies \<open>matrix\<close> to the four corners implied by \<open>position\<close>, returning
  screen-space points.''
\<close>

definition corners :: "Position \<Rightarrow> Matrix \<Rightarrow> Corners" where
  "corners position matrix =
     \<lparr>nw = applyToPoint matrix (left position, top position),
      ne = applyToPoint matrix (left position + width position, top position),
      se = applyToPoint matrix (left position + width position, top position + height position),
      sw = applyToPoint matrix (left position, top position + height position)\<rparr>"

text \<open>
  \<open>Math.atan2(y, x)\<close> of JavaScript: the angle of the point \<open>(x, y)\<close>, in radians, in
  \<open>(-pi, pi]\<close>.
\<close>

definition atan2 :: "real \<Rightarrow> real \<Rightarrow> real" where
  "atan2 y x =
     (if 0 < x then arctan (y / x)
      else if x < 0 then (if 0 \<le> y then arctan (y / x) + pi else arctan (y / x) - pi)
      else if 0 < y then pi / 2
      else if y < 0 then - (pi / 2)
      else 0)"

text \<open>
  Modelled from the spec: \<open>angleBetweenPoints\<close> of src/utils is missing.
  ``\<open>angleBetweenPoints(x0,y0)(x1,y1)\<close>: standard \<open>atan2\<close>-based angle, screen-space
  convention (downward-increasing y), returned in degrees \<open>[0,360)\<close>.''
\<close>

definition angleBetweenPoints :: "real \<Rightarrow> real \<Rightarrow> real \<Rightarrow> real \<Rightarrow> real" where
  "angleBetweenPoints x0 y0 x1 y1 =
     (let degrees = atan2 (y1 - y0) (x1 - x0) * 180 / pi
      in if degrees < 0 then degrees + 360 else degrees)"

text \<open>
  Modelled from the spec: \<open>distanceBetweenPoints\<close> of src/utils is missing.
  ``\<open>distanceBetweenPoints(x0,y0)(x1,y1)\<close>: Euclidean distance.''
\<close>

definition distanceBetweenPoints :: "real \<Rightarrow> real \<Rightarrow> real \<Rightarrow> real \<Rightarrow> real" where
  "distanceBetweenPoints x0 y0 x1 y1 = sqrt ((x1 - x0)\<^sup>2 + (y1 - y0)\<^sup>2)"

subsection \<open>The stages of the sample transform chain (resize.ts, lines 124 to 287)\<close>

text \<open>Of a \<open>MouseEvent\<close> the code reads \<open>which\<close>, \<open>clientX\<close>, \<open>clientY\<close> and \<open>shiftKey\<close>.\<close>

record MouseEvent =
  which :: nat
  clientX :: real
  clientY :: real
  shiftKey :: bool

definition angleAndDistanceFromPointToMouseEvent ::
  "real \<Rightarrow> real \<Rightarrow> real \<Rightarrow> MouseEvent \<Rightarrow> AngleAndDistance" where
  "angleAndDistanceFromPointToMouseEvent originX originY scale e =
     \<lparr>angle = angleBetweenPoints originX originY (clientX e) (clientY e),
      distance = distanceBetweenPoints originX originY (clientX e) (clientY e) / scale\<rparr>"

definition horizontalAndVerticalChange :: "real \<Rightarrow> AngleAndDistance \<Rightarrow> Dimensions" where
  "horizontalAndVerticalChange oldRotation angleAndDistanceChange =
     (let angleRadians = ((angle angleAndDistanceChange - oldRotation) * pi) / 180
      in \<lparr>width = distance angleAndDistanceChange * cos angleRadians,
          height = distance angleAndDistanceChange * sin angleRadians\<rparr>)"

text \<open>
  The four edge flags are the parameters \<open>top, right, bottom, left\<close> of the source; they
  carry the suffix \<open>_edge\<close> here because \<open>top\<close> and \<open>left\<close> name fields of \<open>Position\<close>.
\<close>

definition applyToOriginalDimensions ::
  "Position \<Rightarrow> bool \<Rightarrow> bool \<Rightarrow> bool \<Rightarrow> bool \<Rightarrow> Dimensions \<Rightarrow> Position" where
  "applyToOriginalDimensions oldPosition top_edge right_edge bottom_edge left_edge change =
     (let positionLeft =
            (if left_edge then left oldPosition + width change else left oldPosition);
          positionTop =
            (if top_edge then top oldPosition + height change else top oldPosition);
          positionWidth =
            (if left_edge then width oldPosition - width change
             else if right_edge then width oldPosition + width change
             else width oldPosition);
          positionHeight =
            (if top_edge then height oldPosition - height change
             else if bottom_edge then height oldPosition + height change
             else height oldPosition)
      in \<lparr>width = positionWidth, height = positionHeight,
          left = positionLeft, top = positionTop\<rparr>)"

definition limitToTwentyPxMinimum :: "Position \<Rightarrow> Position" where
  "limitToTwentyPxMinimum position =
     position\<lparr>height := max 20 (height position), width := max 20 (width position)\<rparr>"

definition lockAspectRatio :: "bool \<Rightarrow> real \<Rightarrow> Position \<Rightarrow> Position" where
  "lockAspectRatio shouldLock aspectRatio position =
     (if \<not> shouldLock then position
      else if width position / height position > aspectRatio
        then position\<lparr>height := width position / aspectRatio\<rparr>
      else if width position / height position < aspectRatio
        then position\<lparr>width := height position * aspectRatio\<rparr>
      else position)"

definition offsetForVisualConsistency ::
  "Position \<Rightarrow> Matrix \<Rightarrow> bool \<Rightarrow> bool \<Rightarrow> bool \<Rightarrow> bool \<Rightarrow> Position \<Rightarrow> Position" where
  "offsetForVisualConsistency oldPosition transformMatrix top_edge right_edge bottom_edge
       left_edge newPosition =
     (let oldCorners = corners oldPosition transformMatrix;
          newCorners = corners newPosition transformMatrix;
          change =
            (if bottom_edge \<and> left_edge
               then (fst (ne newCorners) - fst (ne oldCorners),
                     snd (ne newCorners) - snd (ne oldCorners))
             else if top_edge \<and> right_edge
               then (fst (sw newCorners) - fst (sw oldCorners),
                     snd (sw newCorners) - snd (sw oldCorners))
             else if top_edge \<or> left_edge
               then (fst (se newCorners) - fst (se oldCorners),
                     snd (se newCorners) - snd (se oldCorners))
             else (fst (nw newCorners) - fst (nw oldCorners),
                   snd (nw newCorners) - snd (nw oldCorners)))
      in \<lparr>width = width newPosition, height = height newPosition,
          left = left newPosition - fst change, top = top newPosition - snd change\<rparr>)"

text \<open>
  \<open>parent.offsetWidth\<close> and \<open>parent.offsetHeight\<close> are read from the DOM; here they are the
  parameters \<open>parentWidth\<close> and \<open>parentHeight\<close>.
\<close>

definition convertDimensionsToPercent ::
  "nat \<Rightarrow> bool \<Rightarrow> real \<Rightarrow> real \<Rightarrow> Position \<Rightarrow> PositionStrings" where
  "convertDimensionsToPercent places shouldConvertToPercent parentWidth parentHeight position =
     (if shouldConvertToPercent
      then \<lparr>leftS = Percent (round_dp places ((left position / parentWidth) * 100)),
            topS = Percent (round_dp places ((top position / parentHeight) * 100)),
            heightS = Percent (round_dp places ((height position / parentHeight) * 100)),
            widthS = Percent (round_dp places ((width position / parentWidth) * 100))\<rparr>
      else \<lparr>leftS = Px (round_dp places (left position)),
            topS = Px (round_dp places (top position)),
            heightS = Px (round_dp places (height position)),
            widthS = Px (round_dp places (width position))\<rparr>)"

subsection \<open>A resize session (resize.ts, lines 46 to 122)\<close>

text \<open>
  The options of \<open>createResizeObservable\<close>. The flags \<open>top, right, bottom, left\<close> carry
  the suffix \<open>_edge\<close>. Three values that the code takes from its environment are kept
  with the options: the size of \<open>element.parentElement\<close> and the number of decimal places
  of \<open>round\<close>.
\<close>

record ResizeObservableOptions =
  shouldConvertToPercent :: bool
  snap :: "real option"
  top_edge :: bool
  right_edge :: bool
  bottom_edge :: bool
  left_edge :: bool
  parentOffsetWidth :: real
  parentOffsetHeight :: real
  decimalPlaces :: nat

text \<open>
  What the handler of \<open>mousedown\<close> reads from the element: the results of
  \<open>positionOfElement\<close>, \<open>rotationOfElement\<close>, \<open>transformMatrixOfElement\<close> and
  \<open>scaleOfElement\<close> (all of src/utils, which read the DOM) at that moment.
\<close>

record Snapshot =
  oldPosition :: Position
  oldRotation :: real
  transformMatrix :: Matrix
  scale :: real

text \<open>
  The value of \<open>move$\<close> for one \<open>mousemove\<close>, stage by stage: \<open>snapped\<close> is what reaches
  \<open>distinctUntilChanged\<close> (lines 71 to 89), \<open>corrected\<close> is what follows it up to the
  anchor correction (lines 91 to 106), and \<open>emitted\<close> adds the unit conversion
  (lines 107 to 112). The first argument \<open>e\<close> is the \<open>mousedown\<close> event.
\<close>

definition localChange :: "MouseEvent \<Rightarrow> Snapshot \<Rightarrow> MouseEvent \<Rightarrow> Dimensions" where
  "localChange e s m =
     horizontalAndVerticalChange (oldRotation s)
       (angleAndDistanceFromPointToMouseEvent (clientX e) (clientY e) (scale s) m)"

definition snapped ::
  "ResizeObservableOptions \<Rightarrow> MouseEvent \<Rightarrow> Snapshot \<Rightarrow> MouseEvent \<Rightarrow> Position" where
  "snapped opts e s m =
     snapObjectValues (snap opts)
       (limitToTwentyPxMinimum
         (applyToOriginalDimensions (oldPosition s) (top_edge opts) (right_edge opts)
            (bottom_edge opts) (left_edge opts) (localChange e s m)))"

definition corrected ::
  "ResizeObservableOptions \<Rightarrow> MouseEvent \<Rightarrow> Snapshot \<Rightarrow> Position \<Rightarrow> Position" where
  "corrected opts e s position =
     offsetForVisualConsistency (oldPosition s) (transformMatrix s) (top_edge opts)
       (right_edge opts) (bottom_edge opts) (left_edge opts)
       (lockAspectRatio (shiftKey e) (width (oldPosition s) / height (oldPosition s)) position)"

definition emitted ::
  "ResizeObservableOptions \<Rightarrow> MouseEvent \<Rightarrow> Snapshot \<Rightarrow> Position \<Rightarrow> PositionStrings" where
  "emitted opts e s position =
     convertDimensionsToPercent (decimalPlaces opts) (shouldConvertToPercent opts)
       (parentOffsetWidth opts) (parentOffsetHeight opts) (corrected opts e s position)"

subsection \<open>Object identity and \<open>distinctUntilChanged\<close>\<close>

text \<open>
  \<open>distinctUntilChanged()\<close> is called without a comparator, so it compares a value with
  the previous one by \<open>===\<close>; for objects that is identity, not equality of the fields.
  An object is therefore a pair of a reference and its contents, and an object literal
  takes the next unused reference.
\<close>

type_synonym 'a obj = "nat \<times> 'a"

definition new_object :: "'a \<Rightarrow> nat \<Rightarrow> 'a obj \<times> nat" where
  "new_object v n = ((n, v), Suc n)"

text \<open>
  The objects built for one \<open>mousemove\<close> before \<open>distinctUntilChanged\<close>:
  \<open>applyToOriginalDimensions\<close> and \<open>limitToTwentyPxMinimum\<close> each return an object
  literal; \<open>snapObjectValues\<close> returns its argument when no step is set and a rounded
  copy otherwise. The result is the object that reaches \<open>distinctUntilChanged\<close>, with
  the next unused reference.
\<close>

definition sampleObject ::
  "ResizeObservableOptions \<Rightarrow> MouseEvent \<Rightarrow> Snapshot \<Rightarrow> MouseEvent \<Rightarrow> nat
     \<Rightarrow> Position obj \<times> nat" where
  "sampleObject opts e s m n =
     (let (o1, n1) =
            new_object
              (applyToOriginalDimensions (oldPosition s) (top_edge opts) (right_edge opts)
                 (bottom_edge opts) (left_edge opts) (localChange e s m)) n;
          (o2, n2) = new_object (limitToTwentyPxMinimum (snd o1)) n1
      in case snap opts of
           None \<Rightarrow> (o2, n2)
         | Some step \<Rightarrow> new_object (snapObjectValues (snap opts) (snd o2)) n2)"

subsection \<open>The session manager with the frame throttle\<close>

text \<open>
  The observable returned by \<open>createResizeObservable\<close> is a machine that reacts to four
  kinds of event: a \<open>mousedown\<close> on the handle (with what the handler then reads from the
  element), a \<open>mousemove\<close> and a \<open>mouseup\<close> on the document, and an animation frame. It
  answers with the values it emits (\<open>Next\<close>) and with calls of \<open>onComplete\<close>.

  \<open>switchMap\<close> (line 61) subscribes to the observable built for the latest \<open>mousedown\<close>
  that passes the filter and unsubscribes from the one before. The state therefore holds
  at most one session: the event and the snapshot of its \<open>mousedown\<close>, the reference of
  the last object that its \<open>distinctUntilChanged\<close> let through, and the value that the
  throttle has not emitted yet.
\<close>

record Session =
  down :: MouseEvent
  snapshot :: Snapshot
  previous :: "nat option"
  pending :: "PositionStrings option"

record State =
  active :: "Session option"
  nextRef :: nat

datatype Event =
    MouseDown MouseEvent Snapshot
  | MouseMove MouseEvent
  | AnimationFrame
  | MouseUp

datatype Output = Next PositionStrings | OnComplete

definition startSession :: "MouseEvent \<Rightarrow> Snapshot \<Rightarrow> Session" where
  "startSession e s = \<lparr>down = e, snapshot = s, previous = None, pending = None\<rparr>"

text \<open>
  Modelled from the spec: \<open>requestAnimationFramesUntil\<close>, \<open>documentMouseMove$\<close> and
  \<open>documentMouseUp$\<close> of src/observables/misc are missing. The throttle ``emits at most
  once per animation frame; if multiple samples arrive within one frame's window, only
  the most recent is kept''; it ``terminates as soon as the termination signal fires,
  but first flushes any sample received after the last frame-boundary emission'', and
  ``invokes an optional completion callback exactly once, after the last emission''.
  So a \<open>mousemove\<close> that passes \<open>distinctUntilChanged\<close> replaces the pending value; an
  animation frame emits the pending value and clears it; \<open>mouseup\<close> emits it if there is
  one, calls \<open>onComplete\<close> and ends the session.

  From the source (lines 59 to 121): only a \<open>mousedown\<close> with \<open>which = 1\<close> starts a
  session, and it replaces the session before it; the values of \<open>move$\<close> are computed
  when the \<open>mousemove\<close> arrives. \<open>preventDefault\<close> and \<open>stopPropagation\<close> act on the event
  only and are left out.
\<close>

fun step :: "ResizeObservableOptions \<Rightarrow> State \<Rightarrow> Event \<Rightarrow> State \<times> Output list" where
  "step opts st (MouseDown e s) =
     (if which e = 1 then (st\<lparr>active := Some (startSession e s)\<rparr>, []) else (st, []))"
| "step opts st (MouseMove m) =
     (case active st of
        None \<Rightarrow> (st, [])
      | Some a \<Rightarrow>
          (let (ob, n) = sampleObject opts (down a) (snapshot a) m (nextRef st)
           in if previous a = Some (fst ob) then (st\<lparr>nextRef := n\<rparr>, [])
              else (st\<lparr>nextRef := n,
                       active := Some (a\<lparr>previous := Some (fst ob),
                         pending := Some (emitted opts (down a) (snapshot a) (snd ob))\<rparr>)\<rparr>,
                    [])))"
| "step opts st AnimationFrame =
     (case active st of
        None \<Rightarrow> (st, [])
      | Some a \<Rightarrow>
          (case pending a of
             None \<Rightarrow> (st, [])
           | Some v \<Rightarrow> (st\<lparr>active := Some (a\<lparr>pending := None\<rparr>)\<rparr>, [Next v])))"
| "step opts st MouseUp =
     (case active st of
        None \<Rightarrow> (st, [])
      | Some a \<Rightarrow>
          (st\<lparr>active := None\<rparr>,
           (case pending a of None \<Rightarrow> [] | Some v \<Rightarrow> [Next v]) @ [OnComplete]))"

text \<open>The outputs of a sequence of events, with the state they lead to.\<close>

fun run :: "ResizeObservableOptions \<Rightarrow> State \<Rightarrow> Event list \<Rightarrow> State \<times> Output list" where
  "run opts st [] = (st, [])"
| "run opts st (ev # evs) =
     (let (st1, out1) = step opts st ev;
          (st2, out2) = run opts st1 evs
      in (st2, out1 @ out2))"

definition idle :: State where
  "idle = \<lparr>active = None, nextRef = 0\<rparr>"

text \<open>
  Two notions for the proofs. In a well-formed state the reference that
  \<open>distinctUntilChanged\<close> holds has been handed out already. Two states agree when they
  hold the same session with the same pending value; the references may differ.
\<close>

definition wellFormed :: "State \<Rightarrow> bool" where
  "wellFormed st =
     (case active st of
        None \<Rightarrow> True
      | Some a \<Rightarrow> (case previous a of None \<Rightarrow> True | Some r \<Rightarrow> r < nextRef st))"

definition agree :: "State \<Rightarrow> State \<Rightarrow> bool" where
  "agree st1 st2 =
     (case active st1 of
        None \<Rightarrow> active st2 = None
      | Some a1 \<Rightarrow>
          (case active st2 of
             None \<Rightarrow> False
           | Some a2 \<Rightarrow>
               down a1 = down a2 \<and> snapshot a1 = snapshot a2 \<and> pending a1 = pending a2))"

section \<open>Lemmas\<close>

subsection \<open>Rounding and snapping\<close>

lemma Math_round_of_int: "Math_round (of_int k) = of_int k"
proof -
  have "\<lfloor>(1 / 2 :: real) + of_int k\<rfloor> = \<lfloor>1 / 2 :: real\<rfloor> + k"
    by (simp only: floor_add_int)
  then show ?thesis by (simp add: Math_round_def add.commute)
qed

lemma round_dp_of_int: "round_dp places (of_int k) = of_int k"
proof -
  have "(of_int k :: real) * 10 ^ places = of_int (k * 10 ^ places)" by simp
  then have "Math_round (of_int k * 10 ^ places) = of_int k * 10 ^ places"
    by (simp only: Math_round_of_int)
  then show ?thesis by (simp add: round_dp_def)
qed

lemma round_dp_numeral: "round_dp places (numeral w) = numeral w"
  using round_dp_of_int[of places "numeral w"] by simp

lemma round_dp_zero: "round_dp places 0 = 0"
  using round_dp_of_int[of places 0] by simp

lemma Math_round_mono: "x \<le> y \<Longrightarrow> Math_round x \<le> Math_round y"
  by (simp add: Math_round_def floor_mono)

lemma snapTo_from_20:
  assumes "g \<noteq> 0" and "20 \<le> v"
  shows "snapTo g 20 \<le> snapTo g v"
proof (cases "0 < g")
  case True
  then have "20 / g \<le> v / g" using assms(2) by (simp add: divide_right_mono)
  then have "Math_round (20 / g) \<le> Math_round (v / g)" by (rule Math_round_mono)
  then show ?thesis using True by (simp add: snapTo_def mult_right_mono)
next
  case False
  then have neg: "g < 0" using assms(1) by simp
  then have "v / g \<le> 20 / g" using assms(2) by (simp add: divide_right_mono_neg)
  then have "Math_round (v / g) \<le> Math_round (20 / g)" by (rule Math_round_mono)
  then show ?thesis using neg by (simp add: snapTo_def mult_right_mono_neg)
qed

subsection \<open>The polar delta of an unrotated element\<close>

lemma sqrt_one_plus_quot:
  fixes x y :: real
  assumes "x \<noteq> 0"
  shows "sqrt (1 + (y / x)\<^sup>2) = sqrt (x\<^sup>2 + y\<^sup>2) / \<bar>x\<bar>"
proof -
  have "1 + (y / x)\<^sup>2 = (x\<^sup>2 + y\<^sup>2) / x\<^sup>2"
    using assms by (simp add: field_simps power2_eq_square)
  then show ?thesis by (simp add: real_sqrt_divide)
qed

lemma hyp_pos:
  fixes x y :: real
  assumes "x \<noteq> 0"
  shows "0 < sqrt (x\<^sup>2 + y\<^sup>2)"
  using assms by (simp add: sum_power2_gt_zero_iff)

lemma atan2_cos: "sqrt (x\<^sup>2 + y\<^sup>2) * cos (atan2 y x) = x"
proof -
  consider "0 < x" | "x < 0" | "x = 0" by linarith
  then show ?thesis
  proof cases
    case 1
    then show ?thesis using hyp_pos[of x y]
      by (simp add: atan2_def cos_arctan sqrt_one_plus_quot)
  next
    case 2
    then show ?thesis using hyp_pos[of x y]
      by (simp add: atan2_def cos_arctan sqrt_one_plus_quot)
  next
    case 3
    then show ?thesis by (simp add: atan2_def)
  qed
qed

lemma atan2_sin: "sqrt (x\<^sup>2 + y\<^sup>2) * sin (atan2 y x) = y"
proof -
  consider "0 < x" | "x < 0" | "x = 0" by linarith
  then show ?thesis
  proof cases
    case 1
    then show ?thesis using hyp_pos[of x y]
      by (simp add: atan2_def sin_arctan sqrt_one_plus_quot)
  next
    case 2
    then show ?thesis using hyp_pos[of x y]
      by (simp add: atan2_def sin_arctan sqrt_one_plus_quot)
  next
    case 3
    then show ?thesis by (simp add: atan2_def)
  qed
qed

lemma angle_radians:
  "cos (angleBetweenPoints x0 y0 x1 y1 * pi / 180) = cos (atan2 (y1 - y0) (x1 - x0))
   \<and> sin (angleBetweenPoints x0 y0 x1 y1 * pi / 180) = sin (atan2 (y1 - y0) (x1 - x0))"
proof -
  define th where "th = atan2 (y1 - y0) (x1 - x0)"
  have a: "th * 180 / pi * pi / 180 = th" by simp
  have b: "(th * 180 / pi + 360) * pi / 180 = th + 2 * pi"
    by (simp add: field_simps)
  show ?thesis
    unfolding angleBetweenPoints_def Let_def th_def[symmetric]
    by (simp only: a b if_distrib[of "\<lambda>d. d * pi / 180"] cos_periodic sin_periodic if_cancel
        split: if_splits) simp
qed

lemma localChange_unrotated:
  assumes "oldRotation s = 0"
  shows "localChange e s m =
           \<lparr>width = (clientX m - clientX e) / scale s, height = (clientY m - clientY e) / scale s\<rparr>"
  using assms angle_radians[of "clientX e" "clientY e" "clientX m" "clientY m"]
    atan2_cos[of "clientX m - clientX e" "clientY m - clientY e"]
    atan2_sin[of "clientX m - clientX e" "clientY m - clientY e"]
  by (simp add: localChange_def horizontalAndVerticalChange_def
      angleAndDistanceFromPointToMouseEvent_def distanceBetweenPoints_def Let_def)

subsection \<open>The stages\<close>

lemma lockAspectRatio_grows:
  fixes p :: Position
  assumes "0 < ratio" and "0 < width p" and "0 < height p"
  shows "width p \<le> width (lockAspectRatio lck ratio p) \<and> height p \<le> height (lockAspectRatio lck ratio p)"
  using assms by (auto simp: lockAspectRatio_def field_simps)


lemma snapped_at_least_20:
  assumes "\<forall>g. snap opts = Some g \<longrightarrow> g \<noteq> 0 \<and> 20 \<le> snapTo g 20"
  shows "20 \<le> width (snapped opts e s m) \<and> 20 \<le> height (snapped opts e s m)"
proof (cases "snap opts")
  case None
  then show ?thesis
    by (simp add: snapped_def snapObjectValues_def limitToTwentyPxMinimum_def)
next
  case (Some g)
  then have g: "g \<noteq> 0" "20 \<le> snapTo g 20" using assms by auto
  have "snapTo g 20 \<le> snapTo g (max 20 v)" for v
    by (rule snapTo_from_20[OF g(1)]) simp
  then have "20 \<le> snapTo g (max 20 v)" for v using g(2) by (rule order_trans[rotated])
  then show ?thesis
    using Some by (simp add: snapped_def snapObjectValues_def limitToTwentyPxMinimum_def)
qed

lemma corrected_at_least_20:
  assumes "20 \<le> width p" and "20 \<le> height p"
    and "shiftKey e \<longrightarrow> 0 < width (oldPosition s) \<and> 0 < height (oldPosition s)"
  shows "20 \<le> width (corrected opts e s p) \<and> 20 \<le> height (corrected opts e s p)"
proof (cases "shiftKey e")
  case True
  then have "0 < width (oldPosition s) / height (oldPosition s)" using assms(3) by simp
  moreover have "0 < width p" "0 < height p" using assms(1,2) by linarith+
  ultimately have "width p \<le> width (lockAspectRatio (shiftKey e) (width (oldPosition s) / height (oldPosition s)) p)
     \<and> height p \<le> height (lockAspectRatio (shiftKey e) (width (oldPosition s) / height (oldPosition s)) p)"
    by (rule lockAspectRatio_grows)
  then show ?thesis using assms(1,2)
    by (simp add: corrected_def offsetForVisualConsistency_def Let_def)
next
  case False
  then show ?thesis using assms(1,2)
    by (simp add: corrected_def offsetForVisualConsistency_def lockAspectRatio_def Let_def)
qed

lemma se_drag_value:
  assumes "right_edge opts" "bottom_edge opts" "\<not> top_edge opts" "\<not> left_edge opts"
    and "snap opts = None" and "\<not> shouldConvertToPercent opts"
    and "clientX e = 200" "clientY e = 200" "\<not> shiftKey e"
    and "oldPosition s = \<lparr>width = 100, height = 100, left = 0, top = 0\<rparr>"
    and "oldRotation s = 0" "scale s = 1"
    and "clientX m = 250" "clientY m = 240"
  shows "emitted opts e s (snapped opts e s m)
         = \<lparr>leftS = Px 0, topS = Px 0, heightS = Px 140, widthS = Px 150\<rparr>"
  using assms
  by (simp add: emitted_def corrected_def snapped_def localChange_unrotated
      convertDimensionsToPercent_def offsetForVisualConsistency_def corners_def
      lockAspectRatio_def snapObjectValues_def limitToTwentyPxMinimum_def
      applyToOriginalDimensions_def round_dp_numeral round_dp_zero Let_def)

subsection \<open>The session manager\<close>

lemma sampleObject_value: "snd (fst (sampleObject opts e s m n)) = snapped opts e s m"
  by (simp add: sampleObject_def new_object_def snapped_def snapObjectValues_def split: option.splits)

lemma sampleObject_ref:
  "n \<le> fst (fst (sampleObject opts e s m n)) \<and> fst (fst (sampleObject opts e s m n)) < snd (sampleObject opts e s m n)"
  by (simp add: sampleObject_def new_object_def split: option.splits)

lemma step_MouseMove:
  assumes "active st = Some a" and "wellFormed st"
  shows "step opts st (MouseMove m) =
    (st\<lparr>nextRef := snd (sampleObject opts (down a) (snapshot a) m (nextRef st)),
        active := Some (a\<lparr>previous := Some (fst (fst (sampleObject opts (down a) (snapshot a) m (nextRef st)))),
                          pending := Some (emitted opts (down a) (snapshot a) (snapped opts (down a) (snapshot a) m))\<rparr>)\<rparr>, [])"
proof -
  obtain ob n where on: "sampleObject opts (down a) (snapshot a) m (nextRef st) = (ob, n)"
    by (cases "sampleObject opts (down a) (snapshot a) m (nextRef st)")
  have "previous a \<noteq> Some (fst ob)"
    using assms sampleObject_ref[of "nextRef st" opts "down a" "snapshot a" m] on
    by (auto simp: wellFormed_def split: option.splits)
  moreover have "snd ob = snapped opts (down a) (snapshot a) m"
    using sampleObject_value[of opts "down a" "snapshot a" m "nextRef st"] on by simp
  ultimately show ?thesis using assms(1) on by simp
qed

lemma step_wellFormed: "wellFormed st \<Longrightarrow> wellFormed (fst (step opts st ev))"
proof (cases ev)
  case (MouseMove m)
  assume wf: "wellFormed st"
  show ?thesis
  proof (cases "active st")
    case None
    then show ?thesis using wf MouseMove by simp
  next
    case (Some a)
    show ?thesis
      using sampleObject_ref[of "nextRef st" opts "down a" "snapshot a" m]
      by (simp add: MouseMove step_MouseMove[OF Some wf] wellFormed_def del: step.simps)
  qed
qed (auto simp: wellFormed_def startSession_def split: option.splits)

lemma step_agree:
  assumes "agree st1 st2" and "wellFormed st1" and "wellFormed st2"
  shows "snd (step opts st1 ev) = snd (step opts st2 ev)
       \<and> agree (fst (step opts st1 ev)) (fst (step opts st2 ev))"
proof (cases ev)
  case (MouseMove m)
  show ?thesis
  proof (cases "active st1")
    case None
    then show ?thesis using assms MouseMove by (simp add: agree_def)
  next
    case (Some a1)
    then obtain a2 where a2: "active st2 = Some a2"
      using assms(1) by (auto simp: agree_def split: option.splits)
    show ?thesis
      using assms(1) Some a2
      by (simp add: MouseMove step_MouseMove[OF Some assms(2)] step_MouseMove[OF a2 assms(3)] agree_def
          del: step.simps)
  qed
qed (use assms(1) in \<open>auto simp: agree_def startSession_def split: option.splits\<close>)

lemma run_agree:
  "agree st1 st2 \<Longrightarrow> wellFormed st1 \<Longrightarrow> wellFormed st2 \<Longrightarrow> snd (run opts st1 evs) = snd (run opts st2 evs)"
proof (induction evs arbitrary: st1 st2)
  case Nil
  then show ?case by simp
next
  case (Cons ev evs)
  have a: "agree (fst (step opts st1 ev)) (fst (step opts st2 ev))"
    and o: "snd (step opts st1 ev) = snd (step opts st2 ev)"
    using step_agree[OF Cons.prems] by simp_all
  have "snd (run opts (fst (step opts st1 ev)) evs) = snd (run opts (fst (step opts st2 ev)) evs)"
    by (rule Cons.IH[OF a step_wellFormed[OF Cons.prems(2)] step_wellFormed[OF Cons.prems(3)]])
  then show ?case using o by (simp add: case_prod_unfold Let_def)
qed

lemma run_frames_idle:
  assumes "active st = Some a" and "pending a = None"
  shows "run opts st (replicate j AnimationFrame @ evs) = run opts st evs"
  using assms by (induction j) simp_all

lemma run_frames_up_none:
  assumes "active st = Some a" and "pending a = None"
  shows "snd (run opts st (replicate k AnimationFrame @ [MouseUp])) = [OnComplete]"
  using assms by (simp add: run_frames_idle)

lemma run_frames_up_some:
  assumes "active st = Some a" and "pending a = Some v"
  shows "snd (run opts st (replicate k AnimationFrame @ [MouseUp])) = [Next v, OnComplete]"
proof (cases k)
  case 0
  then show ?thesis using assms by simp
next
  case (Suc k')
  have "snd (run opts (st\<lparr>active := Some (a\<lparr>pending := None\<rparr>)\<rparr>)
          (replicate k' AnimationFrame @ [MouseUp])) = [OnComplete]"
    by (rule run_frames_up_none[where a = "a\<lparr>pending := None\<rparr>"]) simp_all
  then show ?thesis using assms Suc by (simp add: case_prod_unfold)
qed

lemma run_one_move:
  assumes "which e = 1"
  shows "snd (run opts st (MouseDown e s # replicate j AnimationFrame @ MouseMove m #
            replicate k AnimationFrame @ [MouseUp]))
         = [Next (emitted opts e s (snapped opts e s m)), OnComplete]"
proof -
  let ?st1 = "st\<lparr>active := Some (startSession e s)\<rparr>"
  let ?v = "emitted opts e s (snapped opts e s m)"
  have d: "step opts st (MouseDown e s) = (?st1, [])" using assms by simp
  have a1: "active ?st1 = Some (startSession e s)" by simp
  have wf: "wellFormed ?st1" by (simp add: wellFormed_def startSession_def)
  have p1: "pending (startSession e s) = None" by (simp add: startSession_def)
  obtain st2 where mv: "step opts ?st1 (MouseMove m) = (st2, [])"
    and a2: "active st2 = Some ((startSession e s)\<lparr>previous := Some (fst (fst (sampleObject opts e s m (nextRef ?st1)))), pending := Some ?v\<rparr>)"
    using step_MouseMove[OF a1 wf, of opts m] by (simp add: startSession_def del: step.simps)
  have up: "snd (run opts st2 (replicate k AnimationFrame @ [MouseUp])) = [Next ?v, OnComplete]"
    by (rule run_frames_up_some[OF a2]) simp
  have "run opts st (MouseDown e s # replicate j AnimationFrame @ MouseMove m #
            replicate k AnimationFrame @ [MouseUp])
        = run opts ?st1 (replicate j AnimationFrame @ MouseMove m #
            replicate k AnimationFrame @ [MouseUp])"
    using d by (simp del: step.simps)
  also have "\<dots> = run opts ?st1 (MouseMove m # replicate k AnimationFrame @ [MouseUp])"
    by (rule run_frames_idle[OF a1 p1])
  also have "snd \<dots> = snd (run opts st2 (replicate k AnimationFrame @ [MouseUp]))"
    using mv by (simp add: case_prod_unfold del: step.simps)
  finally show ?thesis using up by simp
qed

lemma run_same_sample_twice:
  assumes "which e = 1"
  shows "snd (run opts st [MouseDown e s, MouseMove m, AnimationFrame, MouseMove m, AnimationFrame])
         = [Next (emitted opts e s (snapped opts e s m)), Next (emitted opts e s (snapped opts e s m))]"
proof -
  let ?st1 = "st\<lparr>active := Some (startSession e s)\<rparr>"
  let ?v = "emitted opts e s (snapped opts e s m)"
  have d: "step opts st (MouseDown e s) = (?st1, [])" using assms by simp
  have wf1: "wellFormed ?st1" by (simp add: wellFormed_def startSession_def)
  have a1: "active ?st1 = Some (startSession e s)" by simp
  define st2 where "st2 = fst (step opts ?st1 (MouseMove m))"
  have mv: "step opts ?st1 (MouseMove m) = (st2, [])"
    unfolding st2_def using step_MouseMove[OF a1 wf1, of opts m] by (simp del: step.simps)
  have wf2: "wellFormed st2" unfolding st2_def by (rule step_wellFormed[OF wf1])
  obtain a2 where a2: "active st2 = Some a2" "pending a2 = Some ?v" "down a2 = e" "snapshot a2 = s"
    unfolding st2_def using step_MouseMove[OF a1 wf1, of opts m]
    by (simp add: startSession_def del: step.simps)
  define st3 where "st3 = st2\<lparr>active := Some (a2\<lparr>pending := None\<rparr>)\<rparr>"
  have fr: "step opts st2 AnimationFrame = (st3, [Next ?v])"
    using a2 by (simp add: st3_def)
  have wf3: "wellFormed st3"
    using step_wellFormed[OF wf2, of opts AnimationFrame] fr by (simp del: step.simps)
  have a3: "active st3 = Some (a2\<lparr>pending := None\<rparr>)" by (simp add: st3_def)
  define st4 where "st4 = fst (step opts st3 (MouseMove m))"
  have mv2: "step opts st3 (MouseMove m) = (st4, [])"
    unfolding st4_def using step_MouseMove[OF a3 wf3, of opts m] by (simp del: step.simps)
  obtain a4 where a4: "active st4 = Some a4" "pending a4 = Some ?v"
    unfolding st4_def using step_MouseMove[OF a3 wf3, of opts m] a2
    by (simp del: step.simps)
  have fr2: "snd (step opts st4 AnimationFrame) = [Next ?v]"
    using a4 by simp
  show ?thesis
    using d mv fr mv2 fr2 by (simp add: case_prod_unfold del: step.simps)
qed

lemma step_provenance:
  assumes "\<forall>a. active st = Some a \<longrightarrow> (down a, snapshot a) \<in> D \<and> (\<forall>v. pending a = Some v \<longrightarrow> Next v \<in> G)"
    and "\<forall>e s. ev = MouseDown e s \<longrightarrow> (e, s) \<in> D"
    and "\<forall>m. ev = MouseMove m \<longrightarrow> m \<in> M"
    and "OnComplete \<in> G"
    and "\<forall>e s m. (e, s) \<in> D \<and> m \<in> M \<longrightarrow> Next (emitted opts e s (snapped opts e s m)) \<in> G"
  shows "(\<forall>a. active (fst (step opts st ev)) = Some a \<longrightarrow>
            (down a, snapshot a) \<in> D \<and> (\<forall>v. pending a = Some v \<longrightarrow> Next v \<in> G))
       \<and> set (snd (step opts st ev)) \<subseteq> G"
proof (cases ev)
  case (MouseDown e s)
  then show ?thesis using assms by (auto simp: startSession_def)
next
  case (MouseMove m)
  show ?thesis
  proof (cases "active st")
    case None
    then show ?thesis using MouseMove by simp
  next
    case (Some a)
    obtain ob n where on: "sampleObject opts (down a) (snapshot a) m (nextRef st) = (ob, n)"
      by (cases "sampleObject opts (down a) (snapshot a) m (nextRef st)")
    have v: "snd ob = snapped opts (down a) (snapshot a) m"
      using sampleObject_value[of opts "down a" "snapshot a" m "nextRef st"] on by simp
    have "Next (emitted opts (down a) (snapshot a) (snapped opts (down a) (snapshot a) m)) \<in> G"
      using assms(1,3,5) Some MouseMove by blast
    then show ?thesis using assms(1) Some MouseMove on v by auto
  qed
next
  case AnimationFrame
  then show ?thesis using assms(1) by (auto split: option.splits)
next
  case MouseUp
  then show ?thesis using assms(1,4) by (auto split: option.splits)
qed

lemma run_provenance:
  assumes "\<forall>a. active st = Some a \<longrightarrow> (down a, snapshot a) \<in> D \<and> (\<forall>v. pending a = Some v \<longrightarrow> Next v \<in> G)"
    and "\<forall>e s. MouseDown e s \<in> set evs \<longrightarrow> (e, s) \<in> D"
    and "\<forall>m. MouseMove m \<in> set evs \<longrightarrow> m \<in> M"
    and "OnComplete \<in> G"
    and "\<forall>e s m. (e, s) \<in> D \<and> m \<in> M \<longrightarrow> Next (emitted opts e s (snapped opts e s m)) \<in> G"
  shows "set (snd (run opts st evs)) \<subseteq> G"
  using assms(1,2,3)
proof (induction evs arbitrary: st)
  case Nil
  then show ?case by simp
next
  case (Cons ev evs)
  have s: "(\<forall>a. active (fst (step opts st ev)) = Some a \<longrightarrow>
            (down a, snapshot a) \<in> D \<and> (\<forall>v. pending a = Some v \<longrightarrow> Next v \<in> G))
       \<and> set (snd (step opts st ev)) \<subseteq> G"
    using Cons.prems by (intro step_provenance[OF _ _ _ assms(4,5)]) auto
  have "set (snd (run opts (fst (step opts st ev)) evs)) \<subseteq> G"
    using s Cons.prems by (intro Cons.IH) auto
  then show ?case using s by (simp add: case_prod_unfold Let_def del: step.simps)
qed

lemma run_move_frame:
  assumes "active st = Some a" and "wellFormed st"
  shows "snd (run opts st [MouseMove m, AnimationFrame])
         = [Next (emitted opts (down a) (snapshot a) (snapped opts (down a) (snapshot a) m))]"
proof -
  define st2 where "st2 = fst (step opts st (MouseMove m))"
  have mv: "step opts st (MouseMove m) = (st2, [])"
    unfolding st2_def using step_MouseMove[OF assms, of opts m] by (simp del: step.simps)
  obtain a2 where a2: "active st2 = Some a2"
    "pending a2 = Some (emitted opts (down a) (snapshot a) (snapped opts (down a) (snapshot a) m))"
    unfolding st2_def using step_MouseMove[OF assms, of opts m] by (simp del: step.simps)
  have "snd (step opts st2 AnimationFrame)
        = [Next (emitted opts (down a) (snapshot a) (snapped opts (down a) (snapshot a) m))]"
    using a2 by simp
  then show ?thesis using mv by (simp add: case_prod_unfold del: step.simps)
qed

lemma step_MouseDown_silent: "snd (step opts st (MouseDown e s)) = []"
  by simp

lemma step_MouseMove_silent: "snd (step opts st (MouseMove m)) = []"
  by (simp add: case_prod_unfold Let_def split: option.splits)

lemma run_append:
  "snd (run opts st (xs @ ys))
     = snd (run opts st xs) @ snd (run opts (fst (run opts st xs)) ys)"
  "fst (run opts st (xs @ ys)) = fst (run opts (fst (run opts st xs)) ys)"
  by (induction xs arbitrary: st) (simp_all add: case_prod_unfold Let_def del: step.simps)

section \<open>The claims\<close>

text \<open>
  C1. Every Position emitted by the resize pipeline has width and height of at least 20,
  measured before the percent conversion. As stated, for any snap configuration, this
  fails: the floor is applied before the snap, and a step of 50 rounds the floored
  width 20 down to 0 (see the counterexample below). It holds when no step is set, or
  when the step rounds 20 itself to 20 or more (as the steps 10, 25 and 30 do; the step
  is not zero). The sessions are those in
  which no division is by zero: the scale is not zero, and the starting position has
  positive width and height whenever the aspect lock is engaged. Each emission of a run
  is the conversion of \<open>corrected (snapped m)\<close> for a \<open>mousedown\<close> and a \<open>mousemove\<close> of
  the run, and that position is at least 20 wide and high.
\<close>

theorem emitted_minimum_size:
  assumes "\<forall>g. snap opts = Some g \<longrightarrow> g \<noteq> 0 \<and> 20 \<le> snapTo g 20"
    and "\<forall>e s. MouseDown e s \<in> set evs
           \<longrightarrow> scale s \<noteq> 0
             \<and> (shiftKey e \<longrightarrow> 0 < width (oldPosition s) \<and> 0 < height (oldPosition s))"
    and "active st = None"
  shows "\<forall>out \<in> set (snd (run opts st evs)).
           out = OnComplete
         \<or> (\<exists>e s m. MouseDown e s \<in> set evs \<and> MouseMove m \<in> set evs
               \<and> out = Next (emitted opts e s (snapped opts e s m))
               \<and> 20 \<le> width (corrected opts e s (snapped opts e s m))
               \<and> 20 \<le> height (corrected opts e s (snapped opts e s m)))"
proof -
  define D where "D = {(e, s). MouseDown e s \<in> set evs}"
  define M where "M = {m. MouseMove m \<in> set evs}"
  define G where "G = insert OnComplete
     {Next (emitted opts e s (snapped opts e s m)) | e s m. (e, s) \<in> D \<and> m \<in> M}"
  have "set (snd (run opts st evs)) \<subseteq> G"
    by (rule run_provenance[where D = D and M = M])
       (use assms(3) in \<open>auto simp: D_def M_def G_def\<close>)
  moreover have "20 \<le> width (corrected opts e s (snapped opts e s m))
           \<and> 20 \<le> height (corrected opts e s (snapped opts e s m))"
    if "(e, s) \<in> D" for e s m
  proof -
    have "shiftKey e \<longrightarrow> 0 < width (oldPosition s) \<and> 0 < height (oldPosition s)"
      using that assms(2) by (auto simp: D_def)
    then show ?thesis
      using snapped_at_least_20[OF assms(1), of e s m] by (intro corrected_at_least_20) auto
  qed
  ultimately show ?thesis unfolding G_def D_def M_def by fastforce
qed

theorem emitted_minimum_size_witness:
  "set (snd (run
      \<lparr>shouldConvertToPercent = False, snap = Some 25, top_edge = False, right_edge = True,
       bottom_edge = True, left_edge = False, parentOffsetWidth = 1000,
       parentOffsetHeight = 500, decimalPlaces = 2\<rparr>
      idle
      [MouseDown \<lparr>which = 1, clientX = 200, clientY = 200, shiftKey = True\<rparr>
         \<lparr>oldPosition = \<lparr>width = 100, height = 100, left = 0, top = 0\<rparr>, oldRotation = 0,
          transformMatrix = \<lparr>ma = 1, mb = 0, mc = 0, md = 1, me = 0, mf = 0\<rparr>, scale = 1\<rparr>,
       MouseMove \<lparr>which = 1, clientX = 110, clientY = 200, shiftKey = False\<rparr>,
       AnimationFrame]))
   = {Next \<lparr>leftS = Px 0, topS = Px 0, heightS = Px 100, widthS = Px 100\<rparr>}"
proof -
  let ?opts = "\<lparr>shouldConvertToPercent = False, snap = Some 25, top_edge = False,
       right_edge = True, bottom_edge = True, left_edge = False, parentOffsetWidth = 1000,
       parentOffsetHeight = 500, decimalPlaces = 2\<rparr>"
  let ?e = "\<lparr>which = 1, clientX = 200, clientY = 200, shiftKey = True\<rparr>"
  let ?s = "\<lparr>oldPosition = \<lparr>width = 100, height = 100, left = 0, top = 0\<rparr>, oldRotation = 0,
          transformMatrix = \<lparr>ma = 1, mb = 0, mc = 0, md = 1, me = 0, mf = 0\<rparr>, scale = 1\<rparr>"
  let ?m = "\<lparr>which = 1, clientX = 110, clientY = 200, shiftKey = False\<rparr>"
  let ?evs = "[MouseDown ?e ?s, MouseMove ?m, AnimationFrame]"
  have h1: "\<forall>g. snap ?opts = Some g \<longrightarrow> g \<noteq> 0 \<and> 20 \<le> snapTo g 20"
    by (simp add: snapTo_def Math_round_def)
  have h2: "\<forall>e s. MouseDown e s \<in> set ?evs
           \<longrightarrow> scale s \<noteq> 0
             \<and> (shiftKey e \<longrightarrow> 0 < width (oldPosition s) \<and> 0 < height (oldPosition s))"
    by simp
  have h3: "active idle = None" by (simp add: idle_def)
  have v: "emitted ?opts ?e ?s (snapped ?opts ?e ?s ?m)
           = \<lparr>leftS = Px 0, topS = Px 0, heightS = Px 100, widthS = Px 100\<rparr>"
    by (simp add: emitted_def corrected_def snapped_def localChange_unrotated
        convertDimensionsToPercent_def offsetForVisualConsistency_def corners_def
        lockAspectRatio_def snapObjectValues_def snapTo_def Math_round_def
        limitToTwentyPxMinimum_def applyToOriginalDimensions_def
        round_dp_numeral round_dp_zero Let_def)
  have sub: "set (snd (run ?opts idle ?evs))
        \<subseteq> {OnComplete, Next (emitted ?opts ?e ?s (snapped ?opts ?e ?s ?m))}"
    using emitted_minimum_size[OF h1 h2 h3] by auto
  have "Next (emitted ?opts ?e ?s (snapped ?opts ?e ?s ?m)) \<in> set (snd (run ?opts idle ?evs))"
    using step_MouseMove[of "idle\<lparr>active := Some (startSession ?e ?s)\<rparr>" "startSession ?e ?s" ?opts ?m]
    by (simp add: case_prod_unfold wellFormed_def startSession_def del: step.simps)
       (simp add: startSession_def)
  moreover have "OnComplete \<notin> set (snd (run ?opts idle ?evs))"
    using step_MouseMove[of "idle\<lparr>active := Some (startSession ?e ?s)\<rparr>" "startSession ?e ?s" ?opts ?m]
    by (simp add: case_prod_unfold wellFormed_def startSession_def del: step.simps)
       (simp add: startSession_def)
  ultimately show ?thesis using sub v by auto
qed

theorem emitted_minimum_size_counterexample:
  "width (corrected
      \<lparr>shouldConvertToPercent = False, snap = Some 50, top_edge = False, right_edge = True,
       bottom_edge = True, left_edge = False, parentOffsetWidth = 1000,
       parentOffsetHeight = 500, decimalPlaces = 2\<rparr>
      \<lparr>which = 1, clientX = 200, clientY = 200, shiftKey = False\<rparr>
      \<lparr>oldPosition = \<lparr>width = 100, height = 100, left = 0, top = 0\<rparr>, oldRotation = 0,
       transformMatrix = \<lparr>ma = 1, mb = 0, mc = 0, md = 1, me = 0, mf = 0\<rparr>, scale = 1\<rparr>
      (snapped
        \<lparr>shouldConvertToPercent = False, snap = Some 50, top_edge = False, right_edge = True,
         bottom_edge = True, left_edge = False, parentOffsetWidth = 1000,
         parentOffsetHeight = 500, decimalPlaces = 2\<rparr>
        \<lparr>which = 1, clientX = 200, clientY = 200, shiftKey = False\<rparr>
        \<lparr>oldPosition = \<lparr>width = 100, height = 100, left = 0, top = 0\<rparr>, oldRotation = 0,
         transformMatrix = \<lparr>ma = 1, mb = 0, mc = 0, md = 1, me = 0, mf = 0\<rparr>, scale = 1\<rparr>
        \<lparr>which = 1, clientX = 110, clientY = 200, shiftKey = False\<rparr>)) = 0
   \<and> snd (run
      \<lparr>shouldConvertToPercent = False, snap = Some 50, top_edge = False, right_edge = True,
       bottom_edge = True, left_edge = False, parentOffsetWidth = 1000,
       parentOffsetHeight = 500, decimalPlaces = 2\<rparr>
      idle
      [MouseDown \<lparr>which = 1, clientX = 200, clientY = 200, shiftKey = False\<rparr>
         \<lparr>oldPosition = \<lparr>width = 100, height = 100, left = 0, top = 0\<rparr>, oldRotation = 0,
          transformMatrix = \<lparr>ma = 1, mb = 0, mc = 0, md = 1, me = 0, mf = 0\<rparr>, scale = 1\<rparr>,
       MouseMove \<lparr>which = 1, clientX = 110, clientY = 200, shiftKey = False\<rparr>,
       MouseUp])
     = [Next \<lparr>leftS = Px 0, topS = Px 0, heightS = Px 100, widthS = Px 0\<rparr>, OnComplete]"
proof -
  let ?opts = "\<lparr>shouldConvertToPercent = False, snap = Some 50, top_edge = False,
       right_edge = True, bottom_edge = True, left_edge = False, parentOffsetWidth = 1000,
       parentOffsetHeight = 500, decimalPlaces = 2\<rparr>"
  let ?e = "\<lparr>which = 1, clientX = 200, clientY = 200, shiftKey = False\<rparr>"
  let ?s = "\<lparr>oldPosition = \<lparr>width = 100, height = 100, left = 0, top = 0\<rparr>, oldRotation = 0,
          transformMatrix = \<lparr>ma = 1, mb = 0, mc = 0, md = 1, me = 0, mf = 0\<rparr>, scale = 1\<rparr>"
  let ?m = "\<lparr>which = 1, clientX = 110, clientY = 200, shiftKey = False\<rparr>"
  have p: "corrected ?opts ?e ?s (snapped ?opts ?e ?s ?m)
           = \<lparr>width = 0, height = 100, left = 0, top = 0\<rparr>"
    by (simp add: corrected_def snapped_def localChange_unrotated
        offsetForVisualConsistency_def corners_def
        lockAspectRatio_def snapObjectValues_def snapTo_def Math_round_def
        limitToTwentyPxMinimum_def applyToOriginalDimensions_def Let_def)
  have v: "emitted ?opts ?e ?s (snapped ?opts ?e ?s ?m)
           = \<lparr>leftS = Px 0, topS = Px 0, heightS = Px 100, widthS = Px 0\<rparr>"
    unfolding emitted_def p
    by (simp add: convertDimensionsToPercent_def round_dp_numeral round_dp_zero)
  have "snd (run ?opts idle (MouseDown ?e ?s # replicate 0 AnimationFrame @ MouseMove ?m #
            replicate 0 AnimationFrame @ [MouseUp]))
        = [Next (emitted ?opts ?e ?s (snapped ?opts ?e ?s ?m)), OnComplete]"
    by (rule run_one_move) simp
  then show ?thesis unfolding v p by simp
qed

text \<open>
  C2. Feeding the pipeline the same raw pointer sample twice in succession should yield
  one emission, the second position being suppressed by \<open>distinctUntilChanged\<close>. The
  code does not do that: \<open>limitToTwentyPxMinimum\<close> builds a new object for every
  sample, \<open>distinctUntilChanged()\<close> compares objects by identity, and so it never
  suppresses anything. With the \<open>se\<close> handle of an element of 100 by 100, a press at
  (200, 200) and two moves to (250, 240), an animation frame after each, the pipeline
  emits the same value twice.
\<close>

theorem same_sample_twice_emits_twice:
  "snd (run
      \<lparr>shouldConvertToPercent = False, snap = None, top_edge = False, right_edge = True,
       bottom_edge = True, left_edge = False, parentOffsetWidth = 1000,
       parentOffsetHeight = 500, decimalPlaces = 2\<rparr>
      idle
      [MouseDown \<lparr>which = 1, clientX = 200, clientY = 200, shiftKey = False\<rparr>
         \<lparr>oldPosition = \<lparr>width = 100, height = 100, left = 0, top = 0\<rparr>, oldRotation = 0,
          transformMatrix = \<lparr>ma = 1, mb = 0, mc = 0, md = 1, me = 0, mf = 0\<rparr>, scale = 1\<rparr>,
       MouseMove \<lparr>which = 1, clientX = 250, clientY = 240, shiftKey = False\<rparr>,
       AnimationFrame,
       MouseMove \<lparr>which = 1, clientX = 250, clientY = 240, shiftKey = False\<rparr>,
       AnimationFrame])
   = [Next \<lparr>leftS = Px 0, topS = Px 0, heightS = Px 140, widthS = Px 150\<rparr>,
      Next \<lparr>leftS = Px 0, topS = Px 0, heightS = Px 140, widthS = Px 150\<rparr>]"
  by (simp only: run_same_sample_twice se_drag_value
      ResizeObservableOptions.simps MouseEvent.simps Snapshot.simps simp_thms)




text \<open>
  C4. With the aspect lock engaged and the target ratio \<open>oldPosition.width /
  oldPosition.height\<close>: if \<open>width / height\<close> of the candidate exceeds the ratio, the height
  is recomputed from the width and nothing else changes; if it is below, the width is
  recomputed from the height and nothing else changes; if it is equal, the position is
  returned unchanged; and the result always has \<open>width / height\<close> equal to the ratio.
  The starting position has positive width and height and the candidate a positive
  height, so that no division is by zero.
\<close>

theorem lockAspectRatio_ratio:
  assumes "0 < width (old :: Position)" and "0 < height old" and "0 < height (p :: Position)"
  shows "let ratio = width old / height old; q = lockAspectRatio True ratio p in
           (width p / height p > ratio
              \<longrightarrow> q = p\<lparr>height := width p / ratio\<rparr> \<and> height q \<noteq> height p)
         \<and> (width p / height p < ratio
              \<longrightarrow> q = p\<lparr>width := height p * ratio\<rparr> \<and> width q \<noteq> width p)
         \<and> (width p / height p = ratio \<longrightarrow> q = p)
         \<and> width q / height q = ratio"
proof -
  define ratio where "ratio = width old / height old"
  have r: "0 < ratio" using assms by (simp add: ratio_def)
  have gt: "width p / height p > ratio \<Longrightarrow> 0 < width p \<and> width p / ratio > height p"
  proof -
    assume a: "width p / height p > ratio"
    then have "ratio * height p < width p" using assms(3) by (simp add: pos_less_divide_eq)
    then show ?thesis using r assms(3)
      by (smt (verit) mult_pos_pos pos_less_divide_eq mult.commute)
  qed
  have lt: "width p / height p < ratio \<Longrightarrow> height p * ratio \<noteq> width p"
    using assms(3) by (auto simp: field_simps)
  show ?thesis
    unfolding Let_def ratio_def[symmetric]
    using r assms(3) gt lt by (auto simp: lockAspectRatio_def)
qed

theorem lockAspectRatio_ratio_witness:
  "lockAspectRatio True 2 \<lparr>width = 300, height = 100, left = 10, top = 20\<rparr>
     = \<lparr>width = 300, height = 150, left = 10, top = 20\<rparr>
   \<and> lockAspectRatio True 2 \<lparr>width = 100, height = 100, left = 10, top = 20\<rparr>
     = \<lparr>width = 200, height = 100, left = 10, top = 20\<rparr>
   \<and> lockAspectRatio True 2 \<lparr>width = 80, height = 40, left = 10, top = 20\<rparr>
     = \<lparr>width = 80, height = 40, left = 10, top = 20\<rparr>"
  using lockAspectRatio_ratio[of "\<lparr>width = 200, height = 100, left = 0, top = 0\<rparr>"
      "\<lparr>width = 300, height = 100, left = 10, top = 20\<rparr>"]
    lockAspectRatio_ratio[of "\<lparr>width = 200, height = 100, left = 0, top = 0\<rparr>"
      "\<lparr>width = 100, height = 100, left = 10, top = 20\<rparr>"]
    lockAspectRatio_ratio[of "\<lparr>width = 200, height = 100, left = 0, top = 0\<rparr>"
      "\<lparr>width = 80, height = 40, left = 10, top = 20\<rparr>"]
  by (simp add: Let_def)

text \<open>
  C5. The edge-application stage, for a local delta \<open>(dx, dy)\<close> and edge flags of which at
  most one of left and right and at most one of top and bottom is set: an active left
  edge gives \<open>left + dx\<close> and \<open>width - dx\<close>; an active right edge (left inactive) gives
  \<open>width + dx\<close>; an active top edge gives \<open>top + dy\<close> and \<open>height - dy\<close>; an active bottom
  edge (top inactive) gives \<open>height + dy\<close>; and every field governed by an inactive pair
  of edges is that of the old position.
\<close>

theorem applyToOriginalDimensions_edges:
  assumes "\<not> (l \<and> r)" and "\<not> (t \<and> b)"
  shows "let p = applyToOriginalDimensions old t r b l \<lparr>width = dx, height = dy\<rparr> in
           (l \<longrightarrow> left p = left old + dx \<and> width p = width old - dx)
         \<and> (r \<and> \<not> l \<longrightarrow> width p = width old + dx)
         \<and> (t \<longrightarrow> top p = top old + dy \<and> height p = height old - dy)
         \<and> (b \<and> \<not> t \<longrightarrow> height p = height old + dy)
         \<and> (\<not> l \<longrightarrow> left p = left old)
         \<and> (\<not> t \<longrightarrow> top p = top old)
         \<and> (\<not> l \<and> \<not> r \<longrightarrow> left p = left old \<and> width p = width old)
         \<and> (\<not> t \<and> \<not> b \<longrightarrow> top p = top old \<and> height p = height old)"
  by (simp add: applyToOriginalDimensions_def)

theorem applyToOriginalDimensions_edges_witness:
  "left (applyToOriginalDimensions \<lparr>width = 200, height = 100, left = 100, top = 100\<rparr>
      True False False True \<lparr>width = 30, height = 10\<rparr>) = 130
   \<and> width (applyToOriginalDimensions \<lparr>width = 200, height = 100, left = 100, top = 100\<rparr>
      True False False True \<lparr>width = 30, height = 10\<rparr>) = 170
   \<and> top (applyToOriginalDimensions \<lparr>width = 200, height = 100, left = 100, top = 100\<rparr>
      True False False True \<lparr>width = 30, height = 10\<rparr>) = 110
   \<and> height (applyToOriginalDimensions \<lparr>width = 200, height = 100, left = 100, top = 100\<rparr>
      True False False True \<lparr>width = 30, height = 10\<rparr>) = 90
   \<and> left (applyToOriginalDimensions \<lparr>width = 200, height = 100, left = 100, top = 100\<rparr>
      False True False False \<lparr>width = 30, height = 10\<rparr>) = 100
   \<and> width (applyToOriginalDimensions \<lparr>width = 200, height = 100, left = 100, top = 100\<rparr>
      False True False False \<lparr>width = 30, height = 10\<rparr>) = 230
   \<and> top (applyToOriginalDimensions \<lparr>width = 200, height = 100, left = 100, top = 100\<rparr>
      False True False False \<lparr>width = 30, height = 10\<rparr>) = 100
   \<and> height (applyToOriginalDimensions \<lparr>width = 200, height = 100, left = 100, top = 100\<rparr>
      False True False False \<lparr>width = 30, height = 10\<rparr>) = 100"
  using applyToOriginalDimensions_edges[of True False True False
      "\<lparr>width = 200, height = 100, left = 100, top = 100\<rparr>" 30 10]
    applyToOriginalDimensions_edges[of False True False False
      "\<lparr>width = 200, height = 100, left = 100, top = 100\<rparr>" 30 10]
  by (simp add: Let_def)

text \<open>
  C6. The rotation-unwind stage maps the polar delta \<open>{angle, distance}\<close> to the local delta
  \<open>(distance * cos ((angle - oldRotation) * pi / 180), distance * sin ((angle -
  oldRotation) * pi / 180))\<close>. With \<open>oldRotation = 90\<close>, a drag to the right (angle 0, a
  distance that is not zero) gives a local delta whose y-component is larger in
  magnitude than its x-component.
\<close>

theorem horizontalAndVerticalChange_unwind:
  "horizontalAndVerticalChange rot \<lparr>angle = a, distance = d\<rparr> =
     \<lparr>width = d * cos ((a - rot) * pi / 180), height = d * sin ((a - rot) * pi / 180)\<rparr>
   \<and> (d \<noteq> 0 \<longrightarrow>
        \<bar>height (horizontalAndVerticalChange 90 \<lparr>angle = 0, distance = d\<rparr>)\<bar>
        > \<bar>width (horizontalAndVerticalChange 90 \<lparr>angle = 0, distance = d\<rparr>)\<bar>)"
  by (simp add: horizontalAndVerticalChange_def Let_def)

theorem horizontalAndVerticalChange_unwind_witness:
  "(10 :: real) \<noteq> 0
   \<and> \<bar>height (horizontalAndVerticalChange 90 \<lparr>angle = 0, distance = 10\<rparr>)\<bar>
     > \<bar>width (horizontalAndVerticalChange 90 \<lparr>angle = 0, distance = 10\<rparr>)\<bar>"
  using horizontalAndVerticalChange_unwind[of 0 0 10] by simp

text \<open>
  C7. A session on the \<open>se\<close> handle (right and bottom edges) of an unrotated, unscaled
  element (rotation 0, scale 1, the linear part of the transform matrix the identity)
  at \<open>{left: 0, top: 0, width: 100, height: 100}\<close>: a press of the left button at
  (200, 200) without the modifier, one move to (250, 240), then the release, with no
  snap step and pixel output. Whatever state the manager was in before, and however
  many animation frames fall between the three events, the pipeline emits
  \<open>{left: 0px, top: 0px, width: 150px, height: 140px}\<close> once and then calls the
  completion callback once.
\<close>

theorem se_drag_end_to_end:
  assumes "right_edge opts" and "bottom_edge opts" and "\<not> top_edge opts" and "\<not> left_edge opts"
    and "snap opts = None" and "\<not> shouldConvertToPercent opts"
    and "which e = 1" and "clientX e = 200" and "clientY e = 200" and "\<not> shiftKey e"
    and "oldPosition s = \<lparr>width = 100, height = 100, left = 0, top = 0\<rparr>"
    and "oldRotation s = 0" and "scale s = 1"
    and "ma (transformMatrix s) = 1" and "mb (transformMatrix s) = 0"
    and "mc (transformMatrix s) = 0" and "md (transformMatrix s) = 1"
    and "clientX m = 250" and "clientY m = 240"
  shows "snd (run opts st (MouseDown e s # replicate j AnimationFrame @ MouseMove m #
            replicate k AnimationFrame @ [MouseUp]))
         = [Next \<lparr>leftS = Px 0, topS = Px 0, heightS = Px 140, widthS = Px 150\<rparr>, OnComplete]"
proof -
  have "emitted opts e s (snapped opts e s m)
        = \<lparr>leftS = Px 0, topS = Px 0, heightS = Px 140, widthS = Px 150\<rparr>"
    using assms by (intro se_drag_value) simp_all
  then show ?thesis using run_one_move[OF assms(7)] by simp
qed

theorem se_drag_end_to_end_witness:
  "snd (run
      \<lparr>shouldConvertToPercent = False, snap = None, top_edge = False, right_edge = True,
       bottom_edge = True, left_edge = False, parentOffsetWidth = 1000,
       parentOffsetHeight = 500, decimalPlaces = 2\<rparr>
      idle
      [MouseDown \<lparr>which = 1, clientX = 200, clientY = 200, shiftKey = False\<rparr>
         \<lparr>oldPosition = \<lparr>width = 100, height = 100, left = 0, top = 0\<rparr>, oldRotation = 0,
          transformMatrix = \<lparr>ma = 1, mb = 0, mc = 0, md = 1, me = 0, mf = 0\<rparr>, scale = 1\<rparr>,
       MouseMove \<lparr>which = 1, clientX = 250, clientY = 240, shiftKey = False\<rparr>,
       MouseUp])
   = [Next \<lparr>leftS = Px 0, topS = Px 0, heightS = Px 140, widthS = Px 150\<rparr>, OnComplete]"
  using se_drag_end_to_end[where j = 0 and k = 0 and st = idle
      and opts = "\<lparr>shouldConvertToPercent = False, snap = None, top_edge = False,
         right_edge = True, bottom_edge = True, left_edge = False, parentOffsetWidth = 1000,
         parentOffsetHeight = 500, decimalPlaces = 2\<rparr>"
      and e = "\<lparr>which = 1, clientX = 200, clientY = 200, shiftKey = False\<rparr>"
      and s = "\<lparr>oldPosition = \<lparr>width = 100, height = 100, left = 0, top = 0\<rparr>, oldRotation = 0,
          transformMatrix = \<lparr>ma = 1, mb = 0, mc = 0, md = 1, me = 0, mf = 0\<rparr>, scale = 1\<rparr>"
      and m = "\<lparr>which = 1, clientX = 250, clientY = 240, shiftKey = False\<rparr>"]
  by (simp del: run.simps step.simps)

text \<open>
  C8. A second press of the left button while a session is active, whatever the state
  of that session, also with a sample pending. The press itself emits no value. The
  state then holds a fresh session: the event of this press and the snapshot taken at
  it (position, rotation, transform matrix and scale), no previous value and no pending
  value. A move and an animation frame after the press emit the value that the pipeline
  computes from this press and this snapshot. For every sequence of later events, each
  value emitted is computed from this press and its snapshot, or from a later press and
  its snapshot, and the outputs are those of a manager that was idle before this press.
  So nothing of the earlier session is emitted any more.
\<close>

theorem second_mousedown_supersedes:
  assumes "which e = 1"
  shows "(\<forall>v. Next v \<notin> set (snd (step opts st (MouseDown e s))))
       \<and> active (fst (step opts st (MouseDown e s)))
           = Some \<lparr>down = e, snapshot = s, previous = None, pending = None\<rparr>
       \<and> snd (run opts (fst (step opts st (MouseDown e s))) [MouseMove m, AnimationFrame])
           = [Next (emitted opts e s (snapped opts e s m))]
       \<and> (\<forall>out \<in> set (snd (run opts (fst (step opts st (MouseDown e s))) evs)).
             out = OnComplete
           \<or> (\<exists>e' s' m'. ((e' = e \<and> s' = s) \<or> MouseDown e' s' \<in> set evs)
                 \<and> MouseMove m' \<in> set evs
                 \<and> out = Next (emitted opts e' s' (snapped opts e' s' m'))))
       \<and> snd (run opts (fst (step opts st (MouseDown e s))) evs)
           = snd (run opts (fst (step opts idle (MouseDown e s))) evs)"
proof -
  let ?st = "fst (step opts st (MouseDown e s))"
  have act: "active ?st = Some \<lparr>down = e, snapshot = s, previous = None, pending = None\<rparr>"
    using assms by (simp add: startSession_def)
  have wf: "wellFormed ?st" "wellFormed (fst (step opts idle (MouseDown e s)))"
    using assms by (simp_all add: wellFormed_def startSession_def)
  have ag: "agree ?st (fst (step opts idle (MouseDown e s)))"
    using assms by (simp add: agree_def startSession_def)
  have mf: "snd (run opts ?st [MouseMove m, AnimationFrame])
           = [Next (emitted opts e s (snapped opts e s m))]"
    using run_move_frame[OF act wf(1), of opts m] by simp
  define D where "D = insert (e, s) {(e', s'). MouseDown e' s' \<in> set evs}"
  define M where "M = {m'. MouseMove m' \<in> set evs}"
  define G where "G = insert OnComplete
     {Next (emitted opts e' s' (snapped opts e' s' m')) | e' s' m'. (e', s') \<in> D \<and> m' \<in> M}"
  have "set (snd (run opts ?st evs)) \<subseteq> G"
    by (rule run_provenance[where D = D and M = M])
       (use act in \<open>auto simp: D_def M_def G_def\<close>)
  then have prov: "\<forall>out \<in> set (snd (run opts ?st evs)).
             out = OnComplete
           \<or> (\<exists>e' s' m'. ((e' = e \<and> s' = s) \<or> MouseDown e' s' \<in> set evs)
                 \<and> MouseMove m' \<in> set evs
                 \<and> out = Next (emitted opts e' s' (snapped opts e' s' m')))"
    unfolding G_def D_def M_def by fastforce
  have eq: "snd (run opts ?st evs) = snd (run opts (fst (step opts idle (MouseDown e s))) evs)"
    by (rule run_agree[OF ag wf])
  have silent: "\<forall>v. Next v \<notin> set (snd (step opts st (MouseDown e s)))"
    by (simp add: step_MouseDown_silent)
  show ?thesis using silent act mf prov eq by (simp del: step.simps run.simps)
qed

theorem second_mousedown_supersedes_witness:
  "snd (run
      \<lparr>shouldConvertToPercent = False, snap = None, top_edge = False, right_edge = True,
       bottom_edge = True, left_edge = False, parentOffsetWidth = 1000,
       parentOffsetHeight = 500, decimalPlaces = 2\<rparr>
      idle
      ([MouseDown \<lparr>which = 1, clientX = 200, clientY = 200, shiftKey = False\<rparr>
         \<lparr>oldPosition = \<lparr>width = 100, height = 100, left = 0, top = 0\<rparr>, oldRotation = 0,
          transformMatrix = \<lparr>ma = 1, mb = 0, mc = 0, md = 1, me = 0, mf = 0\<rparr>, scale = 1\<rparr>,
        MouseMove \<lparr>which = 1, clientX = 250, clientY = 240, shiftKey = False\<rparr>]
       @ [MouseDown \<lparr>which = 1, clientX = 300, clientY = 300, shiftKey = False\<rparr>
         \<lparr>oldPosition = \<lparr>width = 50, height = 60, left = 10, top = 20\<rparr>, oldRotation = 0,
          transformMatrix = \<lparr>ma = 1, mb = 0, mc = 0, md = 1, me = 0, mf = 0\<rparr>, scale = 1\<rparr>,
        MouseMove \<lparr>which = 1, clientX = 310, clientY = 320, shiftKey = False\<rparr>,
        AnimationFrame]))
   = [Next \<lparr>leftS = Px 10, topS = Px 20, heightS = Px 80, widthS = Px 60\<rparr>]"
proof -
  let ?opts = "\<lparr>shouldConvertToPercent = False, snap = None, top_edge = False, right_edge = True,
       bottom_edge = True, left_edge = False, parentOffsetWidth = 1000,
       parentOffsetHeight = 500, decimalPlaces = 2\<rparr>"
  let ?e1 = "\<lparr>which = 1, clientX = 200, clientY = 200, shiftKey = False\<rparr>"
  let ?s1 = "\<lparr>oldPosition = \<lparr>width = 100, height = 100, left = 0, top = 0\<rparr>, oldRotation = 0,
          transformMatrix = \<lparr>ma = 1, mb = 0, mc = 0, md = 1, me = 0, mf = 0\<rparr>, scale = 1\<rparr>"
  let ?m1 = "\<lparr>which = 1, clientX = 250, clientY = 240, shiftKey = False\<rparr>"
  let ?e2 = "\<lparr>which = 1, clientX = 300, clientY = 300, shiftKey = False\<rparr>"
  let ?s2 = "\<lparr>oldPosition = \<lparr>width = 50, height = 60, left = 10, top = 20\<rparr>, oldRotation = 0,
          transformMatrix = \<lparr>ma = 1, mb = 0, mc = 0, md = 1, me = 0, mf = 0\<rparr>, scale = 1\<rparr>"
  let ?m2 = "\<lparr>which = 1, clientX = 310, clientY = 320, shiftKey = False\<rparr>"
  define st where "st = fst (run ?opts idle [MouseDown ?e1 ?s1, MouseMove ?m1])"
  have w: "which ?e2 = 1" by simp
  have v: "emitted ?opts ?e2 ?s2 (snapped ?opts ?e2 ?s2 ?m2)
           = \<lparr>leftS = Px 10, topS = Px 20, heightS = Px 80, widthS = Px 60\<rparr>"
    by (simp add: emitted_def corrected_def snapped_def localChange_unrotated
        convertDimensionsToPercent_def offsetForVisualConsistency_def corners_def
        lockAspectRatio_def snapObjectValues_def limitToTwentyPxMinimum_def
        applyToOriginalDimensions_def round_dp_numeral round_dp_zero Let_def)
  have sup: "snd (run ?opts (fst (step ?opts st (MouseDown ?e2 ?s2))) [MouseMove ?m2, AnimationFrame])
       = [Next (emitted ?opts ?e2 ?s2 (snapped ?opts ?e2 ?s2 ?m2))]"
    using second_mousedown_supersedes[OF w, where opts = ?opts and st = st and s = ?s2
        and m = ?m2 and evs = "[]"]
    by (simp del: run.simps step.simps)
  have first: "snd (run ?opts idle [MouseDown ?e1 ?s1, MouseMove ?m1]) = []"
    by (simp add: case_prod_unfold Let_def step_MouseDown_silent step_MouseMove_silent
        del: step.simps)
  have "snd (run ?opts st [MouseDown ?e2 ?s2, MouseMove ?m2, AnimationFrame])
        = snd (step ?opts st (MouseDown ?e2 ?s2))
          @ snd (run ?opts (fst (step ?opts st (MouseDown ?e2 ?s2))) [MouseMove ?m2, AnimationFrame])"
    by (simp add: case_prod_unfold Let_def del: step.simps)
  then have "snd (run ?opts st [MouseDown ?e2 ?s2, MouseMove ?m2, AnimationFrame])
        = [Next \<lparr>leftS = Px 10, topS = Px 20, heightS = Px 80, widthS = Px 60\<rparr>]"
    using sup v step_MouseDown_silent[of ?opts st ?e2 ?s2]
    by (simp del: run.simps step.simps)
  then show ?thesis
    using first unfolding run_append st_def[symmetric] by (simp del: run.simps step.simps)
qed

text \<open>
  C9. With the lock engaged and a target ratio that is the quotient of a positive
  starting width and a positive starting height, \<open>lockAspectRatio\<close> decreases neither
  dimension of a position of positive width and height; applied after the floor of 20
  it therefore keeps width and height at 20 or more.
\<close>

theorem lockAspectRatio_never_shrinks:
  assumes "0 < width (old :: Position)" and "0 < height old"
    and "0 < width (p :: Position)" and "0 < height p"
  shows "width p \<le> width (lockAspectRatio True (width old / height old) p)
       \<and> height p \<le> height (lockAspectRatio True (width old / height old) p)
       \<and> 20 \<le> width (lockAspectRatio True (width old / height old) (limitToTwentyPxMinimum p))
       \<and> 20 \<le> height (lockAspectRatio True (width old / height old) (limitToTwentyPxMinimum p))"
proof -
  let ?l = "limitToTwentyPxMinimum p"
  have r: "0 < width old / height old" using assms(1,2) by simp
  have a: "20 \<le> width ?l" "20 \<le> height ?l" by (simp_all add: limitToTwentyPxMinimum_def)
  then have "0 < width ?l" "0 < height ?l" by linarith+
  from lockAspectRatio_grows[OF r this, of True] a lockAspectRatio_grows[OF r assms(3,4), of True]
  show ?thesis by linarith
qed

theorem lockAspectRatio_never_shrinks_witness:
  "(300 :: real) \<le> width (lockAspectRatio True 2 \<lparr>width = 300, height = 100, left = 10, top = 20\<rparr>)
   \<and> (100 :: real) \<le> height (lockAspectRatio True 2 \<lparr>width = 300, height = 100, left = 10, top = 20\<rparr>)
   \<and> 20 \<le> width (lockAspectRatio True 2
        (limitToTwentyPxMinimum \<lparr>width = 300, height = 100, left = 10, top = 20\<rparr>))
   \<and> 20 \<le> height (lockAspectRatio True 2
        (limitToTwentyPxMinimum \<lparr>width = 300, height = 100, left = 10, top = 20\<rparr>))"
  using lockAspectRatio_never_shrinks[of "\<lparr>width = 200, height = 100, left = 0, top = 0\<rparr>"
      "\<lparr>width = 300, height = 100, left = 10, top = 20\<rparr>"]
  by simp

text \<open>
  C10. The anchor-correction stage changes only \<open>left\<close> and \<open>top\<close>: for every input
  position, old position, transform matrix and combination of edge flags, the width and
  the height of its output are those of its input.
\<close>

theorem offsetForVisualConsistency_keeps_size:
  "width (offsetForVisualConsistency old matrix t r b l p) = width p
   \<and> height (offsetForVisualConsistency old matrix t r b l p) = height p"
  by (simp add: offsetForVisualConsistency_def Let_def)

end
